theory Spec2Isabelle
  imports Complex_Main "HOL-Library.Word"
begin

section \<open>Python values\<close>

text \<open>
  The collector and the analyzer pass Python dictionaries around. A value is one of the
  shapes \<^verbatim>\<open>json.loads\<close> and the statistics produce; floats are idealised as reals, with
  the missing value NaN as a constructor of its own. A dictionary is an association list in
  insertion order with distinct keys, as a Python \<^verbatim>\<open>dict\<close> is.
\<close>

datatype pyval =
    PyNone
  | PyBool bool
  | PyInt int
  | PyFloat real
  | PyNaN
  | PyStr string
  | PyList "pyval list"
  | PyDict "(string \<times> pyval) list"

type_synonym pydict = "(string \<times> pyval) list"

text \<open>\<^verbatim>\<open>d[k] = v\<close>: an existing key keeps its place and takes the new value.\<close>

fun dict_set :: "pydict \<Rightarrow> string \<Rightarrow> pyval \<Rightarrow> pydict" where
  "dict_set [] k v = [(k, v)]"
| "dict_set ((k', v') # d) k v =
     (if k' = k then (k, v) # d else (k', v') # dict_set d k v)"

text \<open>\<^verbatim>\<open>k in d\<close> and \<^verbatim>\<open>d.get(k)\<close>.\<close>

definition dict_has :: "pydict \<Rightarrow> string \<Rightarrow> bool" where
  "dict_has d k = (map_of d k \<noteq> None)"

text \<open>The number a numeric value stands for; \<open>None\<close> for every other value.\<close>

fun py_num :: "pyval \<Rightarrow> real option" where
  "py_num (PyInt i) = Some (real_of_int i)"
| "py_num (PyFloat r) = Some r"
| "py_num _ = None"

text \<open>
  The builtin \<^verbatim>\<open>max(0, x)\<close> for a float \<open>x\<close>: the first argument is kept unless the
  second is strictly greater, so the integer \<open>0\<close> comes back when \<open>x \<le> 0\<close>.
\<close>

definition py_max0 :: "real \<Rightarrow> pyval" where
  "py_max0 x = (if 0 < x then PyFloat x else PyInt 0)"

text \<open>Exceptions that leave a method.\<close>

datatype exn = RuntimeError | TypeError | SerialException

section \<open>The analyzer (python/analyze.py)\<close>

text \<open>
  A loaded table, column by column, as \<^verbatim>\<open>pd.read_csv\<close> types it:
  \<^item> \<open>Int64\<close>: every cell is an integer; the column has dtype int64, its values are 64-bit
    two's complement numbers (read with \<open>sint\<close>) and its arithmetic wraps around;
  \<^item> \<open>Float64\<close>: the cells are numbers and some are empty or have a fraction; the column
    has dtype float64, with \<open>None\<close> for the missing value NaN (a column whose cells are all
    empty is of this kind);
  \<^item> \<open>Object\<close>: some cell is text; every cell that is not empty is a string.
  The \<^verbatim>\<open>timestamp\<close> column is kept apart: after \<^verbatim>\<open>pd.to_datetime\<close> in \<open>load_data\<close> it is
  a column of points on the time line, in seconds, with \<open>None\<close> for NaT.
\<close>

datatype column =
    Int64 "64 word list"
  | Float64 "real option list"
  | Object "string option list"

record dataframe =
  nrows :: nat
  timestamp :: "real option list option"
  columns :: "(string \<times> column) list"

text \<open>\<^verbatim>\<open>Series.dropna()\<close>.\<close>

fun dropna :: "'a option list \<Rightarrow> 'a list" where
  "dropna [] = []"
| "dropna (None # xs) = dropna xs"
| "dropna (Some x # xs) = x # dropna xs"

text \<open>
  The cells of a column as numbers, for the reductions that work in floating point;
  \<open>None\<close> when the column holds text, on which those reductions and the subtraction of
  two cells raise \<^verbatim>\<open>TypeError\<close>.
\<close>

fun numeric_cells :: "column \<Rightarrow> real option list option" where
  "numeric_cells (Int64 xs) = Some (map (\<lambda>x. Some (real_of_int (sint x))) xs)"
| "numeric_cells (Float64 xs) = Some xs"
| "numeric_cells (Object xs) = (if dropna xs = [] then Some (map (\<lambda>x. None) xs) else None)"

text \<open>
  The pandas reductions on a series without missing values. Each returns NaN on an empty
  series instead of raising; the sample standard deviation (\<^verbatim>\<open>ddof=1\<close>) is NaN below two
  values; the quantile interpolates linearly between the two nearest ranks.
\<close>

definition series_mean :: "real list \<Rightarrow> pyval" where
  "series_mean xs = (if xs = [] then PyNaN else PyFloat (sum_list xs / real (length xs)))"

definition series_std :: "real list \<Rightarrow> pyval" where
  "series_std xs =
     (if length xs < 2 then PyNaN
      else let m = sum_list xs / real (length xs)
           in PyFloat (sqrt (sum_list (map (\<lambda>x. (x - m)\<^sup>2) xs) / real (length xs - 1))))"

definition series_min :: "real list \<Rightarrow> pyval" where
  "series_min xs = (if xs = [] then PyNaN else PyFloat (Min (set xs)))"

definition series_max :: "real list \<Rightarrow> pyval" where
  "series_max xs = (if xs = [] then PyNaN else PyFloat (Max (set xs)))"

definition series_quantile :: "real \<Rightarrow> real list \<Rightarrow> pyval" where
  "series_quantile q xs =
     (if xs = [] then PyNaN
      else let ys = sort xs;
               h = q * real (length ys - 1);
               i = nat \<lfloor>h\<rfloor>;
               g = h - real i
           in PyFloat (if i + 1 < length ys then ys ! i + g * (ys ! (i + 1) - ys ! i)
                       else ys ! i))"

definition series_median :: "real list \<Rightarrow> pyval" where
  "series_median xs =
     (if xs = [] then PyNaN
      else let ys = sort xs; n = length ys
           in PyFloat (if odd n then ys ! (n div 2)
                       else (ys ! (n div 2 - 1) + ys ! (n div 2)) / 2))"

text \<open>
  \<^verbatim>\<open>(df['timestamp'].max() - df['timestamp'].min()).total_seconds()\<close>: NaN when the column
  holds no time at all (NaT minus NaT).
\<close>

definition time_span_seconds :: "real option list \<Rightarrow> real option" where
  "time_span_seconds c =
     (let ts = dropna c
      in if ts = [] then None else Some (Max (set ts) - Min (set ts)))"

text \<open>The two blocks of statistics, on the cells of a numeric column.\<close>

definition rssi_block :: "real option list \<Rightarrow> pydict" where
  "rssi_block c =
     (let rssi_data = dropna c
      in [(''mean'', series_mean rssi_data),
          (''std'', series_std rssi_data),
          (''min'', series_min rssi_data),
          (''max'', series_max rssi_data),
          (''median'', series_median rssi_data)])"

definition latency_block :: "real option list \<Rightarrow> pydict" where
  "latency_block c =
     (let lat_data = dropna c
      in [(''mean_us'', series_mean lat_data),
          (''std_us'', series_std lat_data),
          (''min_us'', series_min lat_data),
          (''max_us'', series_max lat_data),
          (''median_us'', series_median lat_data),
          (''p95_us'', series_quantile (95 / 100) lat_data),
          (''p99_us'', series_quantile (99 / 100) lat_data)])"

definition rssi_stats_of :: "column \<Rightarrow> exn + pyval" where
  "rssi_stats_of c =
     (case numeric_cells c of None \<Rightarrow> Inl TypeError | Some v \<Rightarrow> Inr (PyDict (rssi_block v)))"

definition latency_stats_of :: "column \<Rightarrow> exn + pyval" where
  "latency_stats_of c =
     (case numeric_cells c of None \<Rightarrow> Inl TypeError | Some v \<Rightarrow> Inr (PyDict (latency_block v)))"

text \<open>
  The packet-loss estimate from sequence gaps (analyze.py, lines 91 to 94). On a float64
  column the arithmetic is in floating point, idealised as the reals.
\<close>

definition packet_loss_float :: "real option list \<Rightarrow> pyval" where
  "packet_loss_float c =
     (let seq_data = sort (dropna c);
          expected_packets =
            (if 0 < length seq_data then Max (set seq_data) - Min (set seq_data) + 1 else 0);
          actual_packets = real (length seq_data)
      in if 0 < expected_packets
         then py_max0 ((expected_packets - actual_packets) / expected_packets * 100)
         else PyInt 0)"

text \<open>
  On an int64 column \<^verbatim>\<open>max()\<close> and \<^verbatim>\<open>min()\<close> are int64 scalars: their difference, the
  \<open>+ 1\<close> and the subtraction of the count are 64-bit operations that wrap around, the
  comparison with zero is signed, and only the division is in floating point.
\<close>

definition int64_max :: "64 word list \<Rightarrow> 64 word" where
  "int64_max xs = word_of_int (Max (set (map sint xs)))"

definition int64_min :: "64 word list \<Rightarrow> 64 word" where
  "int64_min xs = word_of_int (Min (set (map sint xs)))"

definition packet_loss_int64 :: "64 word list \<Rightarrow> pyval" where
  "packet_loss_int64 xs =
     (let seq_data = sort_key sint xs;
          expected_packets =
            (if 0 < length seq_data then int64_max seq_data - int64_min seq_data + 1 else 0);
          actual_packets = length seq_data
      in if 0 < sint expected_packets
         then py_max0 (real_of_int (sint (expected_packets - of_nat actual_packets))
                        / real_of_int (sint expected_packets) * 100)
         else PyInt 0)"

text \<open>
  On a column of text \<^verbatim>\<open>max()\<close> and \<^verbatim>\<open>min()\<close> are strings and their difference raises
  \<^verbatim>\<open>TypeError\<close>.
\<close>

fun packet_loss_of :: "column \<Rightarrow> exn + pyval" where
  "packet_loss_of (Int64 xs) = Inr (packet_loss_int64 xs)"
| "packet_loss_of (Float64 xs) = Inr (packet_loss_float xs)"
| "packet_loss_of (Object xs) = (if dropna xs = [] then Inr (PyInt 0) else Inl TypeError)"

text \<open>
  \<open>basic_stats\<close>. The analyzer's table is \<open>None\<close> before a load. The result is \<open>Inl e\<close>
  when the call raises \<open>e\<close> and \<open>Inr stats\<close> when it returns the report. The text
  \<^verbatim>\<open>f"{duration:.1f} seconds"\<close> is produced by the parameter \<open>fmt\<close>, which receives the
  duration (\<open>None\<close> for NaN).
\<close>

definition stats_init :: "nat \<Rightarrow> pydict" where
  "stats_init n =
     [(''total_samples'', PyInt (int n)),
      (''time_span'', PyNone),
      (''rssi_stats'', PyDict []),
      (''latency_stats'', PyDict []),
      (''packet_loss'', PyInt 0)]"

text \<open>
  One \<^verbatim>\<open>if name in self.df.columns:\<close> block: when the column exists, compute the entry
  from it and store it under the key.
\<close>

definition analyse_column ::
  "string \<Rightarrow> string \<Rightarrow> (column \<Rightarrow> exn + pyval) \<Rightarrow> dataframe \<Rightarrow> pydict \<Rightarrow> exn + pydict" where
  "analyse_column name key f df stats =
     (case map_of (columns df) name of
        None \<Rightarrow> Inr stats
      | Some c \<Rightarrow> (case f c of Inl e \<Rightarrow> Inl e | Inr v \<Rightarrow> Inr (dict_set stats key v)))"

definition basic_stats :: "(real option \<Rightarrow> string) \<Rightarrow> dataframe option \<Rightarrow> exn + pydict" where
  "basic_stats fmt dfo =
     (case dfo of
        None \<Rightarrow> Inr []
      | Some df \<Rightarrow>
          let stats = stats_init (nrows df);
              stats = (case timestamp df of
                         None \<Rightarrow> stats
                       | Some c \<Rightarrow> dict_set stats ''time_span'' (PyStr (fmt (time_span_seconds c))))
          in case analyse_column ''rssi'' ''rssi_stats'' rssi_stats_of df stats of
               Inl e \<Rightarrow> Inl e
             | Inr stats \<Rightarrow>
                 (case analyse_column ''lat_us'' ''latency_stats'' latency_stats_of df stats of
                    Inl e \<Rightarrow> Inl e
                  | Inr stats \<Rightarrow> analyse_column ''seq'' ''packet_loss'' packet_loss_of df stats))"

text \<open>
  The estimate as the specification words it, on the numbers of the column: drop the
  missing values, sort, take \<open>expected = max - min + 1\<close> and \<open>actual\<close> the number of rows
  left, and report \<open>max 0 ((expected - actual) / expected * 100)\<close>, or \<open>0\<close> when \<open>expected\<close>
  is not positive.
\<close>

definition spec_packet_loss :: "real option list \<Rightarrow> real" where
  "spec_packet_loss c =
     (let xs = sort (dropna c);
          expected = (if xs = [] then 0 else last xs - hd xs + 1);
          actual = real (length xs)
      in if expected \<le> 0 then 0 else max 0 ((expected - actual) / expected * 100))"

definition report_number :: "pydict \<Rightarrow> string \<Rightarrow> real option" where
  "report_number r k = (case map_of r k of None \<Rightarrow> None | Some v \<Rightarrow> py_num v)"

text \<open>
  A table without text in the columns the analyzer computes with, and an int64 column on
  which the estimate's arithmetic stays within 64 bits.
\<close>

definition is_numeric :: "dataframe \<Rightarrow> string \<Rightarrow> bool" where
  "is_numeric df name =
     (case map_of (columns df) name of None \<Rightarrow> True | Some c \<Rightarrow> numeric_cells c \<noteq> None)"

definition no_text :: "dataframe \<Rightarrow> bool" where
  "no_text df = (is_numeric df ''rssi'' \<and> is_numeric df ''lat_us'' \<and> is_numeric df ''seq'')"

fun within_int64 :: "column \<Rightarrow> bool" where
  "within_int64 (Int64 xs) =
     (xs = [] \<or> (Max (set (map sint xs)) - Min (set (map sint xs)) + 1 < 2 ^ 63
                 \<and> int (length xs) < 2 ^ 63))"
| "within_int64 _ = True"

section \<open>The collector (python/collect.py)\<close>

text \<open>
  The lines a method prints. A printed line is recorded by the statement that prints it,
  with the values it interpolates.
\<close>

datatype msg =
    MsgJsonParseError string string
  | MsgStarting
  | MsgDuration "real option"
  | MsgMaxSamples "int option"
  | MsgDurationLimit "real option"
  | MsgSampleLimit "int option"
  | MsgProgress nat real
  | MsgStopped
  | MsgComplete nat real
  | MsgNoData
  | MsgSaved string nat
  | MsgSaveFailed string

text \<open>
  \<^verbatim>\<open>str.strip()\<close>. A character is a code point below 256; these are the ones Python
  counts as whitespace in that range.
\<close>

definition isspace :: "char \<Rightarrow> bool" where
  "isspace c =
     (c \<in> {CHR 0x09, CHR 0x0A, CHR 0x0B, CHR 0x0C, CHR 0x0D, CHR 0x1C, CHR 0x1D,
            CHR 0x1E, CHR 0x1F, CHR 0x20, CHR 0x85, CHR 0xA0})"

definition strip :: "string \<Rightarrow> string" where
  "strip s = rev (dropWhile isspace (rev (dropWhile isspace s)))"

text \<open>
  \<open>parse_json_line\<close>. The library function \<^verbatim>\<open>json.loads\<close> is the parameter \<open>loads\<close>:
  \<open>Inl e\<close> is a \<^verbatim>\<open>JSONDecodeError\<close> with text \<open>e\<close>, \<open>Inr v\<close> the decoded value. \<open>now\<close> is
  the text \<^verbatim>\<open>datetime.now().isoformat()\<close> gives at the call. The assignment
  \<^verbatim>\<open>data['timestamp'] = ...\<close> succeeds on a dictionary only; on any other decoded value it
  raises \<^verbatim>\<open>TypeError\<close>, which the \<^verbatim>\<open>except json.JSONDecodeError\<close> clause does not catch.
  The result is what the call returns or raises, with the lines it printed.
\<close>

definition parse_json_line ::
  "(string \<Rightarrow> string + pyval) \<Rightarrow> string \<Rightarrow> string \<Rightarrow> (exn + pydict option) \<times> msg list" where
  "parse_json_line loads now line =
     (let line = strip line
      in if line = [] then (Inr None, [])
         else case loads line of
                Inl e \<Rightarrow> (Inr None, [MsgJsonParseError e line])
              | Inr (PyDict data) \<Rightarrow> (Inr (Some (dict_set data ''timestamp'' (PyStr now))), [])
              | Inr _ \<Rightarrow> (Inl TypeError, []))"

text \<open>
  The world a collection run sees. One call of
  \<^verbatim>\<open>serial_conn.readline().decode('utf-8', errors='ignore')\<close> takes some time and then
  gives a line (empty on a read timeout), or the operator's interrupt arrives while it
  blocks, or the transport fails. The \<open>n\<close>-th call is \<open>readline E n\<close>. Decoding with
  \<^verbatim>\<open>errors='ignore'\<close> drops bytes it cannot decode and never raises, so the handler for
  \<^verbatim>\<open>UnicodeDecodeError\<close> has no case here. Only reads take time on the clock.
\<close>

datatype read_outcome = Line string | KeyboardInterrupt | ReadFailed

record read_event =
  took :: real
  outcome :: read_outcome

record env =
  json_loads :: "string \<Rightarrow> string + pyval"
  isoformat :: "real \<Rightarrow> string"
  readline :: "nat \<Rightarrow> read_event"

text \<open>
  The collector object (\<open>connected\<close>: \<^verbatim>\<open>serial_conn\<close> is set and open; \<open>data_buffer\<close>)
  together with the number of reads made so far, the clock and the printed lines.
\<close>

record state =
  connected :: bool
  data_buffer :: "pydict list"
  reads :: nat
  clock :: real
  printed :: "msg list"

definition say :: "msg list \<Rightarrow> state \<Rightarrow> state" where
  "say ms s = s\<lparr>printed := printed s @ ms\<rparr>"

text \<open>Truth values of the optional limits: \<^verbatim>\<open>None\<close> and zero are false.\<close>

definition truthy_float :: "real option \<Rightarrow> bool" where
  "truthy_float x = (case x of None \<Rightarrow> False | Some d \<Rightarrow> d \<noteq> 0)"

definition truthy_int :: "int option \<Rightarrow> bool" where
  "truthy_int x = (case x of None \<Rightarrow> False | Some m \<Rightarrow> m \<noteq> 0)"

text \<open>
  The two termination conditions (collect.py, lines 97 and 100):
  \<^verbatim>\<open>duration and (time.time() - start_time) >= duration\<close> and
  \<^verbatim>\<open>max_samples and sample_count >= max_samples\<close>.
\<close>

definition duration_reached :: "real option \<Rightarrow> real \<Rightarrow> bool" where
  "duration_reached duration elapsed =
     (case duration of None \<Rightarrow> False | Some d \<Rightarrow> d \<noteq> 0 \<and> d \<le> elapsed)"

definition samples_reached :: "int option \<Rightarrow> nat \<Rightarrow> bool" where
  "samples_reached max_samples sample_count =
     (case max_samples of None \<Rightarrow> False | Some m \<Rightarrow> m \<noteq> 0 \<and> m \<le> int sample_count)"

text \<open>
  One pass through the body of \<^verbatim>\<open>while True\<close>: it leaves the loop (by \<^verbatim>\<open>break\<close>, by the
  interrupt or by an exception nothing in the loop catches) or goes round again with the
  new sample count.
\<close>

datatype loop_exit = DurationLimit | SampleLimit | Interrupt | Raise exn

datatype step_result = Exit loop_exit state | Continue nat state

definition loop_body ::
  "env \<Rightarrow> real option \<Rightarrow> int option \<Rightarrow> real \<Rightarrow> nat \<Rightarrow> state \<Rightarrow> step_result" where
  "loop_body E duration max_samples start_time sample_count s =
     (if duration_reached duration (clock s - start_time)
      then Exit DurationLimit (say [MsgDurationLimit duration] s)
      else if samples_reached max_samples sample_count
      then Exit SampleLimit (say [MsgSampleLimit max_samples] s)
      else
        let ev = readline E (reads s);
            s1 = s\<lparr>reads := Suc (reads s), clock := clock s + took ev\<rparr>
        in case outcome ev of
             KeyboardInterrupt \<Rightarrow> Exit Interrupt s1
           | ReadFailed \<Rightarrow> Exit (Raise SerialException) s1
           | Line line \<Rightarrow>
               if line = [] then Continue sample_count s1
               else
                 (case parse_json_line (json_loads E) (isoformat E (clock s1)) line of
                    (Inl e, out) \<Rightarrow> Exit (Raise e) (say out s1)
                  | (Inr None, out) \<Rightarrow> Continue sample_count (say out s1)
                  | (Inr (Some parsed), out) \<Rightarrow>
                      if parsed = [] then Continue sample_count (say out s1)
                      else
                        let s2 = (say out s1)\<lparr>data_buffer := data_buffer s1 @ [parsed]\<rparr>;
                            sample_count = Suc sample_count
                        in Continue sample_count
                             (if sample_count mod 10 = 0
                              then say [MsgProgress sample_count (clock s2 - start_time)] s2
                              else s2)))"

text \<open>The loop itself. It may run forever; then its value is \<open>None\<close>.\<close>

partial_function (option) collect_loop ::
  "env \<Rightarrow> real option \<Rightarrow> int option \<Rightarrow> real \<Rightarrow> nat \<Rightarrow> state \<Rightarrow> (loop_exit \<times> state) option" where
  "collect_loop E duration max_samples start_time sample_count s =
     (case loop_body E duration max_samples start_time sample_count s of
        Exit ex s' \<Rightarrow> Some (ex, s')
      | Continue sample_count' s' \<Rightarrow>
          collect_loop E duration max_samples start_time sample_count' s')"

text \<open>
  \<open>collect_data\<close>: \<open>Inl e\<close> when the call raises \<open>e\<close>, \<open>Inr xs\<close> when it returns the copy
  \<open>xs\<close> of the buffer.
\<close>

definition collect_data ::
  "env \<Rightarrow> real option \<Rightarrow> int option \<Rightarrow> state \<Rightarrow> ((exn + pydict list) \<times> state) option" where
  "collect_data E duration max_samples s =
     (if \<not> connected s then Some (Inl RuntimeError, s)
      else
        let start_time = clock s;
            sample_count = 0;
            s = say [MsgStarting] s;
            s = (if truthy_float duration then say [MsgDuration duration] s else s);
            s = (if truthy_int max_samples then say [MsgMaxSamples max_samples] s else s)
        in case collect_loop E duration max_samples start_time sample_count s of
             None \<Rightarrow> None
           | Some (ex, s) \<Rightarrow>
               (case ex of
                  Raise e \<Rightarrow> Some (Inl e, s)
                | _ \<Rightarrow>
                    let s = (if ex = Interrupt then say [MsgStopped] s else s);
                        elapsed = clock s - start_time;
                        s = say [MsgComplete (length (data_buffer s)) elapsed] s
                    in Some (Inr (data_buffer s), s)))"

text \<open>
  \<open>to_dataframe\<close> and \<open>save_to_csv\<close>. A frame built from the buffer has the union of the
  records' keys as columns, in the order of their first appearance, and one row per record; \<^verbatim>\<open>DataFrame.empty\<close> holds when it has
  no column or no row. The file system maps a path to the text stored there. The
  conversion \<^verbatim>\<open>pd.to_datetime\<close>, \<^verbatim>\<open>mkdir(parents=True, exist_ok=True)\<close> and
  \<^verbatim>\<open>df.to_csv\<close> are parameters; each may raise (\<open>Inl\<close>, \<open>Some\<close> with the error text).
\<close>

record frame =
  frame_columns :: "string list"
  frame_rows :: "pydict list"

type_synonym filesystem = "string \<Rightarrow> string option"

record store_env =
  to_datetime :: "pyval \<Rightarrow> string + pyval"
  mkdir_parents :: "string \<Rightarrow> filesystem \<Rightarrow> string option \<times> filesystem"
  to_csv :: "frame \<Rightarrow> string \<Rightarrow> filesystem \<Rightarrow> string option \<times> filesystem"

definition frame_empty :: "frame \<Rightarrow> bool" where
  "frame_empty df = (frame_columns df = [] \<or> frame_rows df = [])"

fun convert_timestamps ::
  "(pyval \<Rightarrow> string + pyval) \<Rightarrow> pydict list \<Rightarrow> string + pydict list" where
  "convert_timestamps conv [] = Inr []"
| "convert_timestamps conv (r # rs) =
     (case map_of r ''timestamp'' of
        None \<Rightarrow> (case convert_timestamps conv rs of Inl e \<Rightarrow> Inl e | Inr rs' \<Rightarrow> Inr (r # rs'))
      | Some v \<Rightarrow>
          (case conv v of
             Inl e \<Rightarrow> Inl e
           | Inr v' \<Rightarrow>
               (case convert_timestamps conv rs of
                  Inl e \<Rightarrow> Inl e
                | Inr rs' \<Rightarrow> Inr (dict_set r ''timestamp'' v' # rs'))))"

definition to_dataframe :: "store_env \<Rightarrow> state \<Rightarrow> string + frame" where
  "to_dataframe S s =
     (if data_buffer s = [] then Inr \<lparr>frame_columns = [], frame_rows = []\<rparr>
      else
        let df = \<lparr>frame_columns = rev (remdups (rev (concat (map (map fst) (data_buffer s))))),
                  frame_rows = data_buffer s\<rparr>
        in if ''timestamp'' \<in> set (frame_columns df)
           then (case convert_timestamps (to_datetime S) (frame_rows df) of
                   Inl e \<Rightarrow> Inl e
                 | Inr rows \<Rightarrow> Inr (df\<lparr>frame_rows := rows\<rparr>))
           else Inr df)"

definition save_to_csv ::
  "store_env \<Rightarrow> string \<Rightarrow> state \<Rightarrow> filesystem \<Rightarrow> bool \<times> state \<times> filesystem" where
  "save_to_csv S filepath s fs =
     (case to_dataframe S s of
        Inl e \<Rightarrow> (False, say [MsgSaveFailed e] s, fs)
      | Inr df \<Rightarrow>
          if frame_empty df then (False, say [MsgNoData] s, fs)
          else
            (case mkdir_parents S filepath fs of
               (Some e, fs1) \<Rightarrow> (False, say [MsgSaveFailed e] s, fs1)
             | (None, fs1) \<Rightarrow>
                 (case to_csv S df filepath fs1 of
                    (Some e, fs2) \<Rightarrow> (False, say [MsgSaveFailed e] s, fs2)
                  | (None, fs2) \<Rightarrow>
                      (True, say [MsgSaved filepath (length (frame_rows df))] s, fs2))))"

section \<open>Notions of the specification\<close>

text \<open>
  An error sample has \<^verbatim>\<open>error\<close> and none of the measurement fields; a measurement sample
  has at least one of \<^verbatim>\<open>seq\<close>, \<^verbatim>\<open>rssi\<close>, \<^verbatim>\<open>lat_us\<close>.
\<close>

definition is_error_sample :: "pydict \<Rightarrow> bool" where
  "is_error_sample d =
     (dict_has d ''error'' \<and> \<not> dict_has d ''seq'' \<and> \<not> dict_has d ''rssi''
      \<and> \<not> dict_has d ''lat_us'')"

definition is_measurement_sample :: "pydict \<Rightarrow> bool" where
  "is_measurement_sample d = (dict_has d ''seq'' \<or> dict_has d ''rssi'' \<or> dict_has d ''lat_us'')"

text \<open>
  What a read contributes: a sample (a line that decodes to a JSON object), or nothing
  (a timeout, a blank line or a line that does not decode).
\<close>

definition yields_sample :: "env \<Rightarrow> nat \<Rightarrow> bool" where
  "yields_sample E i =
     (case outcome (readline E i) of
        Line l \<Rightarrow>
          strip l \<noteq> [] \<and> (case json_loads E (strip l) of Inr (PyDict d) \<Rightarrow> True | _ \<Rightarrow> False)
      | _ \<Rightarrow> False)"

definition yields_nothing :: "env \<Rightarrow> nat \<Rightarrow> bool" where
  "yields_nothing E i =
     (case outcome (readline E i) of
        Line l \<Rightarrow> strip l = [] \<or> (case json_loads E (strip l) of Inl e \<Rightarrow> True | _ \<Rightarrow> False)
      | _ \<Rightarrow> False)"

text \<open>
  An unbounded source: every read gives a sample or nothing, and samples never stop
  coming.
\<close>

definition unbounded_source :: "env \<Rightarrow> bool" where
  "unbounded_source E =
     ((\<forall>i. yields_sample E i \<or> yields_nothing E i) \<and> (\<forall>i. \<exists>j\<ge>i. yields_sample E j))"

section \<open>Concrete inputs\<close>

text \<open>
  The values of \<^verbatim>\<open>json.loads\<close> on the lines the examples below feed to the collector; the
  last case stands for a line that does not decode, such as the truncated \<^verbatim>\<open>{"seq": }\<close>.
\<close>

definition loads_examples :: "string \<Rightarrow> string + pyval" where
  "loads_examples s =
     (if s = ''{}'' then Inr (PyDict [])
      else if s = ''5'' then Inr (PyInt 5)
      else if s = ''{\"seq\": 7}'' then Inr (PyDict [(''seq'', PyInt 7)])
      else if s = ''{\"timestamp\": 1, \"seq\": 7}''
      then Inr (PyDict [(''timestamp'', PyInt 1), (''seq'', PyInt 7)])
      else if s = ''{\"error\": \"pong_timeout\"}''
      then Inr (PyDict [(''error'', PyStr ''pong_timeout'')])
      else Inl ''Expecting value'')"

text \<open>
  A source on which every read takes one second and gives the same measurement line, a
  world around it whose clock text tells the first second from the later ones, and a
  collector that has just connected.
\<close>

definition steady_source :: "nat \<Rightarrow> read_event" where
  "steady_source n = \<lparr>took = 1, outcome = Line (''{\"seq\": 7}'' @ [CHR 0x0A])\<rparr>"

definition example_env :: "(nat \<Rightarrow> read_event) \<Rightarrow> env" where
  "example_env src =
     \<lparr>json_loads = loads_examples,
      isoformat = (\<lambda>t. if t \<le> 1 then ''2025-06-01T12:00:01'' else ''2025-06-01T12:00:02''),
      readline = src\<rparr>"

text \<open>The samples that source gives: the one decoded in the first second, and a later one.\<close>

definition first_sample :: pydict where
  "first_sample = [(''seq'', PyInt 7), (''timestamp'', PyStr ''2025-06-01T12:00:01'')]"

definition later_sample :: pydict where
  "later_sample = [(''seq'', PyInt 7), (''timestamp'', PyStr ''2025-06-01T12:00:02'')]"

definition fresh :: state where
  "fresh = \<lparr>connected = True, data_buffer = [], reads = 0, clock = 0, printed = []\<rparr>"

text \<open>A store in which making the directory and writing the file succeed.\<close>

definition example_store :: store_env where
  "example_store =
     \<lparr>to_datetime = Inr,
      mkdir_parents = (\<lambda>p fs. (None, fs)),
      to_csv = (\<lambda>df p fs. (None, fs(p \<mapsto> ''csv'')))\<rparr>"

section \<open>Auxiliary notions for the proofs\<close>

text \<open>The report of a table without text, entry by entry.\<close>

definition report_of :: "(real option \<Rightarrow> string) \<Rightarrow> dataframe \<Rightarrow> pydict" where
  "report_of fmt df =
     [(''total_samples'', PyInt (int (nrows df))),
      (''time_span'',
         case timestamp df of None \<Rightarrow> PyNone | Some c \<Rightarrow> PyStr (fmt (time_span_seconds c))),
      (''rssi_stats'',
         case map_of (columns df) ''rssi'' of
           None \<Rightarrow> PyDict []
         | Some c \<Rightarrow> PyDict (rssi_block (the (numeric_cells c)))),
      (''latency_stats'',
         case map_of (columns df) ''lat_us'' of
           None \<Rightarrow> PyDict []
         | Some c \<Rightarrow> PyDict (latency_block (the (numeric_cells c)))),
      (''packet_loss'',
         case map_of (columns df) ''seq'' of
           None \<Rightarrow> PyInt 0
         | Some c \<Rightarrow> projr (packet_loss_of c))]"

text \<open>The state in which \<open>collect_data\<close> enters its loop: the opening lines are printed.\<close>

definition announced :: "real option \<Rightarrow> int option \<Rightarrow> state \<Rightarrow> state" where
  "announced d m s =
     (let s = say [MsgStarting] s;
          s = (if truthy_float d then say [MsgDuration d] s else s)
      in if truthy_int m then say [MsgMaxSamples m] s else s)"

section \<open>Dictionaries\<close>

lemma map_of_dict_set: "map_of (dict_set d k v) k' = (if k' = k then Some v else map_of d k')"
  by (induction d) auto

lemma keys_dict_set: "k \<in> fst ` set d \<Longrightarrow> map fst (dict_set d k v) = map fst d"
  by (induction d) force+

section \<open>The analyzer: proofs\<close>

lemma sorted_last_Max: "xs \<noteq> [] \<Longrightarrow> sorted xs \<Longrightarrow> last xs = Max (set xs)"
proof (induction xs)
  case Nil
  then show ?case by simp
next
  case (Cons x xs)
  show ?case
  proof (cases "xs = []")
    case True
    then show ?thesis by simp
  next
    case False
    with Cons have ih: "last xs = Max (set xs)" by simp
    from False have "last xs \<in> set xs" by simp
    with Cons.prems have "x \<le> last xs" by auto
    with False ih show ?thesis by (simp add: max_def)
  qed
qed

lemma sorted_hd_Min: "xs \<noteq> [] \<Longrightarrow> sorted xs \<Longrightarrow> hd xs = Min (set xs)"
  by (cases xs) (auto intro!: Min_eqI[symmetric])

text \<open>The documented formula, in terms of the largest and the smallest value.\<close>

lemma spec_packet_loss_Max_Min:
  assumes "dropna c \<noteq> []"
  shows "spec_packet_loss c =
     max 0 ((Max (set (dropna c)) - Min (set (dropna c)) + 1 - real (length (dropna c)))
            / (Max (set (dropna c)) - Min (set (dropna c)) + 1) * 100)"
proof -
  let ?xs = "sort (dropna c)"
  from assms have ne: "?xs \<noteq> []" by (metis length_sort length_0_conv)
  have l: "last ?xs = Max (set (dropna c))" using sorted_last_Max[OF ne] by simp
  have h: "hd ?xs = Min (set (dropna c))" using sorted_hd_Min[OF ne] by simp
  from assms obtain y where y: "y \<in> set (dropna c)" by (cases "dropna c") auto
  have "Min (set (dropna c)) \<le> y" "y \<le> Max (set (dropna c))" using y by simp_all
  then have pos: "0 < Max (set (dropna c)) - Min (set (dropna c)) + 1" by linarith
  show ?thesis using ne pos l h by (simp add: spec_packet_loss_def Let_def)
qed

lemma packet_loss_float_spec: "py_num (packet_loss_float c) = Some (spec_packet_loss c)"
proof (cases "dropna c = []")
  case True
  then show ?thesis by (simp add: packet_loss_float_def spec_packet_loss_def)
next
  case False
  from False obtain y where y: "y \<in> set (dropna c)" by (cases "dropna c") auto
  have "Min (set (dropna c)) \<le> y" "y \<le> Max (set (dropna c))" using y by simp_all
  then have pos: "0 < Max (set (dropna c)) - Min (set (dropna c)) + 1" by linarith
  from False have ne: "sort (dropna c) \<noteq> []" by (metis length_sort length_0_conv)
  have code: "packet_loss_float c
      = py_max0 ((Max (set (dropna c)) - Min (set (dropna c)) + 1 - real (length (dropna c)))
                 / (Max (set (dropna c)) - Min (set (dropna c)) + 1) * 100)"
    using False pos ne by (simp add: packet_loss_float_def Let_def)
  show ?thesis unfolding code spec_packet_loss_Max_Min[OF False]
    by (simp add: py_max0_def max_def)
qed

lemma py_num_max0: "py_num (py_max0 x) = Some (max 0 x)"
  by (simp add: py_max0_def max_def)

lemma dropna_map_Some: "dropna (map (\<lambda>x. Some (f x)) xs) = map f xs"
  by (induction xs) auto

lemma sint_word_of_int_64:
  "- (2 ^ 63) \<le> k \<Longrightarrow> k < 2 ^ 63 \<Longrightarrow> sint (word_of_int k :: 64 word) = k"
  by (simp add: sint_sbintrunc' signed_take_bit_int_eq_self)

lemma packet_loss_int64_spec:
  assumes "within_int64 (Int64 xs)"
  shows "py_num (packet_loss_int64 xs)
         = Some (spec_packet_loss (map (\<lambda>x. Some (real_of_int (sint x))) xs))"
proof (cases "xs = []")
  case True
  then show ?thesis by (simp add: packet_loss_int64_def spec_packet_loss_def)
next
  case False
  let ?S = "set (map sint xs)"
  let ?M = "Max ?S" and ?m = "Min ?S"
  let ?v = "map (\<lambda>x. Some (real_of_int (sint x))) xs"
  from False assms have r1: "?M - ?m + 1 < 2 ^ 63" and r2: "int (length xs) < 2 ^ 63" by simp_all
  from False have ne: "?S \<noteq> {}" and fin: "finite ?S" by simp_all
  from False have "sint (hd xs) \<in> ?S" by (cases xs) simp_all
  then obtain y where y: "y \<in> ?S" ..
  have "?m \<le> y" "y \<le> ?M" using y fin by simp_all
  then have r0: "1 \<le> ?M - ?m + 1" by linarith
  have len: "1 \<le> int (length xs)" using False by (cases xs) simp_all
  have set_sort: "set (map sint (sort_key sint xs)) = ?S" by simp
  have ex: "int64_max (sort_key sint xs) - int64_min (sort_key sint xs) + 1
      = (word_of_int (?M - ?m + 1) :: 64 word)"
    unfolding int64_max_def int64_min_def set_sort by (simp add: wi_hom_syms)
  have sex: "sint (word_of_int (?M - ?m + 1) :: 64 word) = ?M - ?m + 1"
    using r0 r1 by (intro sint_word_of_int_64) linarith+
  have df: "(word_of_int (?M - ?m + 1) :: 64 word) - of_nat (length xs)
      = word_of_int (?M - ?m + 1 - int (length xs))"
    by (simp add: wi_hom_syms)
  have sdf: "sint (word_of_int (?M - ?m + 1 - int (length xs)) :: 64 word)
      = ?M - ?m + 1 - int (length xs)"
    using r0 r1 r2 len by (intro sint_word_of_int_64) linarith+
  have code: "packet_loss_int64 xs
      = py_max0 (real_of_int (?M - ?m + 1 - int (length xs)) / real_of_int (?M - ?m + 1) * 100)"
  proof -
    have len_sort: "length (sort_key sint xs) = length xs" by simp
    have e1: "(if 0 < length xs
               then int64_max (sort_key sint xs) - int64_min (sort_key sint xs) + 1 else 0)
        = (word_of_int (?M - ?m + 1) :: 64 word)"
      using False ex by simp
    have pos: "0 < ?M - ?m + 1" using r0 by linarith
    show ?thesis
      unfolding packet_loss_int64_def Let_def len_sort e1 df sex sdf if_P[OF pos] ..
  qed
  have dn: "dropna ?v = map (\<lambda>x. real_of_int (sint x)) xs" by (rule dropna_map_Some)
  have img: "set (map (\<lambda>x. real_of_int (sint x)) xs) = real_of_int ` ?S"
    by (simp only: set_map image_image)
  have mono: "mono (real_of_int :: int \<Rightarrow> real)" by (simp add: mono_def)
  have Mx: "Max (real_of_int ` ?S) = real_of_int ?M"
    using mono_Max_commute[OF mono fin ne] by simp
  have antimono: "Min (real_of_int ` ?S) = real_of_int ?m"
    using mono_Min_commute[OF mono fin ne] by simp
  have spec: "spec_packet_loss ?v
      = max 0 ((real_of_int ?M - real_of_int ?m + 1 - real (length xs))
               / (real_of_int ?M - real_of_int ?m + 1) * 100)"
  proof -
    have ne_v: "dropna ?v \<noteq> []" unfolding dn using False by simp
    show ?thesis
      unfolding spec_packet_loss_Max_Min[OF ne_v] dn img Mx antimono length_map ..
  qed
  have same: "real_of_int (?M - ?m + 1 - int (length xs)) / real_of_int (?M - ?m + 1) * 100
      = (real_of_int ?M - real_of_int ?m + 1 - real (length xs))
        / (real_of_int ?M - real_of_int ?m + 1) * 100"
    by simp
  show ?thesis unfolding code spec same by (rule py_num_max0)
qed

lemma stats_of_numeric:
  assumes "numeric_cells c = Some v"
  shows "rssi_stats_of c = Inr (PyDict (rssi_block v))"
    and "latency_stats_of c = Inr (PyDict (latency_block v))"
    and "packet_loss_of c = Inr (projr (packet_loss_of c))"
  using assms
  by (cases c; simp add: rssi_stats_of_def latency_stats_of_def split: if_splits)+

lemma stats_of_text:
  assumes "numeric_cells c = None"
  shows "rssi_stats_of c = Inl TypeError"
    and "latency_stats_of c = Inl TypeError"
    and "packet_loss_of c = Inl TypeError"
  using assms
  by (cases c; simp add: rssi_stats_of_def latency_stats_of_def split: if_splits)+

lemma analyse_column_absent:
  "map_of (columns df) name = None \<Longrightarrow> analyse_column name key f df stats = Inr stats"
  by (simp add: analyse_column_def)

lemma analyse_column_present:
  "map_of (columns df) name = Some c \<Longrightarrow> f c = Inr v \<Longrightarrow>
   analyse_column name key f df stats = Inr (dict_set stats key v)"
  by (simp add: analyse_column_def)

lemma analyse_column_raises:
  "map_of (columns df) name = Some c \<Longrightarrow> f c = Inl e \<Longrightarrow>
   analyse_column name key f df stats = Inl e"
  by (simp add: analyse_column_def)

lemma basic_stats_no_text:
  assumes "no_text df"
  shows "basic_stats fmt (Some df) = Inr (report_of fmt df)"
proof -
  let ?s0 = "stats_init (nrows df)"
  let ?s1 = "case timestamp df of None \<Rightarrow> ?s0
             | Some c \<Rightarrow> dict_set ?s0 ''time_span'' (PyStr (fmt (time_span_seconds c)))"
  let ?s2 = "case map_of (columns df) ''rssi'' of None \<Rightarrow> ?s1
             | Some c \<Rightarrow> dict_set ?s1 ''rssi_stats'' (PyDict (rssi_block (the (numeric_cells c))))"
  let ?s3 = "case map_of (columns df) ''lat_us'' of None \<Rightarrow> ?s2
             | Some c \<Rightarrow> dict_set ?s2 ''latency_stats''
                          (PyDict (latency_block (the (numeric_cells c))))"
  let ?s4 = "case map_of (columns df) ''seq'' of None \<Rightarrow> ?s3
             | Some c \<Rightarrow> dict_set ?s3 ''packet_loss'' (projr (packet_loss_of c))"
  from assms have n: "is_numeric df ''rssi''" "is_numeric df ''lat_us''" "is_numeric df ''seq''"
    by (simp_all add: no_text_def)
  have a: "analyse_column ''rssi'' ''rssi_stats'' rssi_stats_of df ?s1 = Inr ?s2"
  proof (cases "map_of (columns df) ''rssi''")
    case None
    then show ?thesis by (simp add: analyse_column_absent)
  next
    case (Some c)
    with n(1) obtain v where v: "numeric_cells c = Some v" by (auto simp: is_numeric_def)
    from analyse_column_present[where f = rssi_stats_of, OF Some stats_of_numeric(1)[OF v]] Some v
    show ?thesis by simp
  qed
  have b: "analyse_column ''lat_us'' ''latency_stats'' latency_stats_of df ?s2 = Inr ?s3"
  proof (cases "map_of (columns df) ''lat_us''")
    case None
    then show ?thesis by (simp add: analyse_column_absent)
  next
    case (Some c)
    with n(2) obtain v where v: "numeric_cells c = Some v" by (auto simp: is_numeric_def)
    from analyse_column_present[where f = latency_stats_of, OF Some stats_of_numeric(2)[OF v]] Some v
    show ?thesis by simp
  qed
  have c: "analyse_column ''seq'' ''packet_loss'' packet_loss_of df ?s3 = Inr ?s4"
  proof (cases "map_of (columns df) ''seq''")
    case None
    then show ?thesis by (simp add: analyse_column_absent)
  next
    case (Some c)
    with n(3) obtain v where v: "numeric_cells c = Some v" by (auto simp: is_numeric_def)
    from analyse_column_present[where f = packet_loss_of, OF Some stats_of_numeric(3)[OF v]] Some
    show ?thesis by simp
  qed
  have r: "?s4 = report_of fmt df"
    by (simp add: report_of_def stats_init_def split: option.splits)
  have "basic_stats fmt (Some df) = Inr ?s4"
    unfolding basic_stats_def Let_def option.case a b c sum.case ..
  with r show ?thesis by simp
qed

text \<open>A text column among those the analyzer computes with makes it raise.\<close>

lemma basic_stats_text:
  assumes "\<not> no_text df"
  shows "basic_stats fmt (Some df) = Inl TypeError"
proof -
  let ?s0 = "stats_init (nrows df)"
  let ?s1 = "case timestamp df of None \<Rightarrow> ?s0
             | Some c \<Rightarrow> dict_set ?s0 ''time_span'' (PyStr (fmt (time_span_seconds c)))"
  have raise: "\<And>name key f st. \<not> is_numeric df name \<Longrightarrow>
      (\<And>c. numeric_cells c = None \<Longrightarrow> f c = Inl TypeError) \<Longrightarrow>
      analyse_column name key f df st = Inl TypeError"
    by (auto simp: is_numeric_def analyse_column_def split: option.splits)
  have other: "\<And>name key f st. analyse_column name key f df st = Inl TypeError
      \<or> (\<exists>st'. analyse_column name key f df st = Inr st')
      \<or> (\<exists>e. analyse_column name key f df st = Inl e \<and> e \<noteq> TypeError)"
    by (metis sum.exhaust)
  show ?thesis
  proof (cases "is_numeric df ''rssi''")
    case False
    from raise[OF False stats_of_text(1)] show ?thesis
      by (simp add: basic_stats_def Let_def)
  next
    case r: True
    then obtain s2 where s2: "analyse_column ''rssi'' ''rssi_stats'' rssi_stats_of df ?s1 = Inr s2"
      by (auto simp: is_numeric_def analyse_column_def rssi_stats_of_def split: option.splits)
    show ?thesis
    proof (cases "is_numeric df ''lat_us''")
      case False
      from raise[OF False stats_of_text(2)] s2 show ?thesis
        by (simp add: basic_stats_def Let_def)
    next
      case True
      then obtain s3 where
        s3: "analyse_column ''lat_us'' ''latency_stats'' latency_stats_of df s2 = Inr s3"
        by (auto simp: is_numeric_def analyse_column_def latency_stats_of_def split: option.splits)
      from assms r True have "\<not> is_numeric df ''seq''" by (simp add: no_text_def)
      from raise[OF this stats_of_text(3)] s2 s3 show ?thesis
        by (simp add: basic_stats_def Let_def)
    qed
  qed
qed

lemma dropna_all_missing: "\<forall>x\<in>set c. x = None \<Longrightarrow> dropna c = []"
  by (induction c) auto

lemma dropna_map_None: "dropna (map (\<lambda>x. None) xs) = []"
  by (induction xs) auto

lemma packet_loss_of_spec:
  assumes "numeric_cells c = Some v" and "within_int64 c"
  shows "py_num (projr (packet_loss_of c)) = Some (spec_packet_loss v)"
proof (cases c)
  case (Int64 xs)
  with assms show ?thesis using packet_loss_int64_spec[of xs] by auto
next
  case (Float64 xs)
  with assms show ?thesis using packet_loss_float_spec[of xs] by auto
next
  case (Object xs)
  with assms have "dropna xs = []" and "v = map (\<lambda>x. None) xs" by (auto split: if_splits)
  with Object show ?thesis by (simp add: spec_packet_loss_def dropna_map_None)
qed

lemma packet_loss_of_empty:
  assumes "numeric_cells c = Some v" and "dropna v = []"
  shows "projr (packet_loss_of c) = PyInt 0"
proof (cases c)
  case (Int64 xs)
  with assms have "xs = []" by (auto simp: dropna_map_Some)
  with Int64 show ?thesis by (simp add: packet_loss_int64_def)
next
  case (Float64 xs)
  with assms show ?thesis by (simp add: packet_loss_float_def)
next
  case (Object xs)
  with assms show ?thesis by (auto split: if_splits)
qed


lemma report_of_lookup:
  "map fst (report_of fmt df)
     = [''total_samples'', ''time_span'', ''rssi_stats'', ''latency_stats'', ''packet_loss'']"
  "map_of (report_of fmt df) ''time_span''
     = Some (case timestamp df of None \<Rightarrow> PyNone
             | Some c \<Rightarrow> PyStr (fmt (time_span_seconds c)))"
  "map_of (report_of fmt df) ''rssi_stats''
     = Some (case map_of (columns df) ''rssi'' of None \<Rightarrow> PyDict []
             | Some c \<Rightarrow> PyDict (rssi_block (the (numeric_cells c))))"
  "map_of (report_of fmt df) ''latency_stats''
     = Some (case map_of (columns df) ''lat_us'' of None \<Rightarrow> PyDict []
             | Some c \<Rightarrow> PyDict (latency_block (the (numeric_cells c))))"
  "map_of (report_of fmt df) ''packet_loss''
     = Some (case map_of (columns df) ''seq'' of None \<Rightarrow> PyInt 0
             | Some c \<Rightarrow> projr (packet_loss_of c))"
  by (simp_all add: report_of_def)

text \<open>
  Claim C1, as the code has it. For a table whose \<^verbatim>\<open>seq\<close> column is numeric, with no text in
  the other columns the analyzer computes with, and on which the estimate's arithmetic
  stays within 64 bits when the column is int64, the report is produced and its
  \<^verbatim>\<open>packet_loss\<close> entry is the documented estimate: after the missing values are dropped
  and the rest sorted, with \<open>expected = max - min + 1\<close> and \<open>actual\<close> the number of values
  left, it is \<open>max 0 ((expected - actual) / expected * 100)\<close>, and \<open>0\<close> when nothing is left.
  The sequence \<open>0, 1, 2, 4, 5\<close> gives \<open>50 / 3\<close>, which rounds to 16.67, and the single value
  \<open>3\<close> gives \<open>0\<close>.
\<close>

theorem packet_loss_formula:
  assumes "no_text df" and "map_of (columns df) ''seq'' = Some c"
    and "numeric_cells c = Some v" and "within_int64 c"
  shows "(\<exists>r. basic_stats fmt (Some df) = Inr r
            \<and> report_number r ''packet_loss'' = Some (spec_packet_loss v)
            \<and> (dropna v = [] \<longrightarrow> map_of r ''packet_loss'' = Some (PyInt 0)))
         \<and> packet_loss_of (Int64 [0, 1, 2, 4, 5]) = Inr (PyFloat (50 / 3))
         \<and> \<bar>50 / 3 - 16.67\<bar> < (0.005 :: real)
         \<and> packet_loss_of (Int64 [3]) = Inr (PyInt 0)"
proof -
  have r: "basic_stats fmt (Some df) = Inr (report_of fmt df)"
    using assms(1) by (rule basic_stats_no_text)
  have l: "map_of (report_of fmt df) ''packet_loss'' = Some (projr (packet_loss_of c))"
    using assms(2) by (simp add: report_of_lookup)
  have a: "report_number (report_of fmt df) ''packet_loss'' = Some (spec_packet_loss v)"
    using l packet_loss_of_spec[OF assms(3,4)] by (simp add: report_number_def)
  have b: "dropna v = [] \<longrightarrow> map_of (report_of fmt df) ''packet_loss'' = Some (PyInt 0)"
    using l packet_loss_of_empty[OF assms(3)] by simp
  have c: "packet_loss_of (Int64 [0, 1, 2, 4, 5]) = Inr (PyFloat (50 / 3))"
    by (simp add: packet_loss_int64_def int64_max_def int64_min_def py_max0_def)
  have d: "\<bar>50 / 3 - 16.67\<bar> < (0.005 :: real)" by simp
  have e: "packet_loss_of (Int64 [3]) = Inr (PyInt 0)"
    by (simp add: packet_loss_int64_def int64_max_def int64_min_def py_max0_def)
  from r a b c d e show ?thesis by blast
qed

lemmas stats_simps = basic_stats_def analyse_column_def stats_init_def rssi_stats_of_def
  latency_stats_of_def rssi_block_def latency_block_def series_mean_def series_std_def
  series_min_def series_max_def series_median_def series_quantile_def
  packet_loss_int64_def packet_loss_float_def int64_max_def int64_min_def py_max0_def
  time_span_seconds_def

text \<open>The estimate on an int64 column with one gap.\<close>

theorem packet_loss_formula_witness:
  "\<exists>r. basic_stats (\<lambda>d. ''5.0 seconds'')
          (Some \<lparr>nrows = 5, timestamp = None, columns = [(''seq'', Int64 [0, 1, 2, 4, 5])]\<rparr>)
        = Inr r
      \<and> report_number r ''packet_loss'' = Some (50 / 3)"
proof -
  let ?c = "Int64 [0, 1, 2, 4, 5]"
  let ?v = "map (\<lambda>x. Some (real_of_int (sint x))) [0, 1, 2, 4, 5 :: 64 word]"
  let ?df = "\<lparr>nrows = 5, timestamp = None, columns = [(''seq'', ?c)]\<rparr>"
  have h1: "no_text ?df" by (simp add: no_text_def is_numeric_def)
  have h2: "map_of (columns ?df) ''seq'' = Some ?c" by simp
  have h3: "numeric_cells ?c = Some ?v" by simp
  have h4: "within_int64 ?c" by simp
  have v: "spec_packet_loss ?v = 50 / 3" by (simp add: spec_packet_loss_def)
  from packet_loss_formula[OF h1 h2 h3 h4, of "\<lambda>d. ''5.0 seconds''"]
  obtain r where r: "basic_stats (\<lambda>d. ''5.0 seconds'') (Some ?df) = Inr r"
    and n: "report_number r ''packet_loss'' = Some (spec_packet_loss ?v)" by blast
  from n have "report_number r ''packet_loss'' = Some (50 / 3)" unfolding v .
  with r show ?thesis by blast
qed

text \<open>
  Claim C1 as stated fails. On the int64 column \<open>0, 9223372036854775807\<close> the sum
  \<open>max - min + 1\<close> wraps around to a negative number and the report gives \<open>0\<close>, where the
  documented formula gives a loss above 99; and on a \<^verbatim>\<open>seq\<close> column of text the analyzer
  raises \<^verbatim>\<open>TypeError\<close> and gives no estimate.
\<close>

theorem packet_loss_wraps_or_raises:
  "basic_stats (\<lambda>d. [])
     (Some \<lparr>nrows = 2, timestamp = None,
            columns = [(''seq'', Int64 [0, 9223372036854775807])]\<rparr>)
   = Inr [(''total_samples'', PyInt 2), (''time_span'', PyNone), (''rssi_stats'', PyDict []),
          (''latency_stats'', PyDict []), (''packet_loss'', PyInt 0)]
   \<and> 99 < spec_packet_loss [Some 0, Some 9223372036854775807]
   \<and> basic_stats (\<lambda>d. [])
       (Some \<lparr>nrows = 2, timestamp = None,
              columns = [(''seq'', Object [Some ''a'', Some ''b''])]\<rparr>)
     = Inl TypeError"
proof -
  have a: "basic_stats (\<lambda>d. [])
     (Some \<lparr>nrows = 2, timestamp = None,
            columns = [(''seq'', Int64 [0, 9223372036854775807])]\<rparr>)
   = Inr [(''total_samples'', PyInt 2), (''time_span'', PyNone), (''rssi_stats'', PyDict []),
          (''latency_stats'', PyDict []), (''packet_loss'', PyInt 0)]"
    by (simp add: stats_simps)
  have b: "99 < spec_packet_loss [Some 0, Some 9223372036854775807]"
    by (simp add: spec_packet_loss_def)
  have c: "basic_stats (\<lambda>d. [])
       (Some \<lparr>nrows = 2, timestamp = None,
              columns = [(''seq'', Object [Some ''a'', Some ''b''])]\<rparr>)
     = Inl TypeError"
    by (simp add: stats_simps)
  from a b c show ?thesis by blast
qed

text \<open>
  Claim C3 on the table \<^verbatim>\<open>rssi,seq\<close> with the rows \<^verbatim>\<open>,1\<close> and \<^verbatim>\<open>,2\<close>: every cell of the
  \<^verbatim>\<open>rssi\<close> column is missing, no error is raised, and the block for the column is not
  empty: it holds the five entries, each with the value NaN.
\<close>

theorem all_missing_block_not_empty:
  "basic_stats (\<lambda>d. [])
     (Some \<lparr>nrows = 2, timestamp = None,
            columns = [(''rssi'', Float64 [None, None]), (''seq'', Int64 [1, 2])]\<rparr>)
   = Inr [(''total_samples'', PyInt 2), (''time_span'', PyNone),
          (''rssi_stats'',
             PyDict [(''mean'', PyNaN), (''std'', PyNaN), (''min'', PyNaN), (''max'', PyNaN),
                     (''median'', PyNaN)]),
          (''latency_stats'', PyDict []), (''packet_loss'', PyInt 0)]"
  by (simp add: stats_simps)

text \<open>
  The same in general: whenever every cell of the \<^verbatim>\<open>rssi\<close> or \<^verbatim>\<open>lat_us\<close> column is missing, the
  block holds all its entries with the value NaN.
\<close>

lemma all_missing_column_gives_nan_block:
  assumes "no_text df" and "numeric_cells c = Some v" and "\<forall>x\<in>set v. x = None"
  shows "(map_of (columns df) ''rssi'' = Some c \<longrightarrow>
            map_of (report_of fmt df) ''rssi_stats'' =
              Some (PyDict [(''mean'', PyNaN), (''std'', PyNaN), (''min'', PyNaN),
                            (''max'', PyNaN), (''median'', PyNaN)]))
       \<and> (map_of (columns df) ''lat_us'' = Some c \<longrightarrow>
            map_of (report_of fmt df) ''latency_stats'' =
              Some (PyDict [(''mean_us'', PyNaN), (''std_us'', PyNaN), (''min_us'', PyNaN),
                            (''max_us'', PyNaN), (''median_us'', PyNaN), (''p95_us'', PyNaN),
                            (''p99_us'', PyNaN)]))"
  using dropna_all_missing[OF assms(3)] assms(2)
  by (simp add: report_of_lookup rssi_block_def latency_block_def series_mean_def series_std_def
      series_min_def series_max_def series_median_def series_quantile_def)






section \<open>The decoder and the store: proofs\<close>

lemma dict_set_nonempty: "dict_set d k v \<noteq> []"
  by (cases d) (auto split: if_splits)

lemma strip_Nil: "strip [] = []"
  by (simp add: strip_def)

text \<open>The decoder, case by case.\<close>

lemma parse_blank: "strip line = [] \<Longrightarrow> parse_json_line loads now line = (Inr None, [])"
  by (simp add: parse_json_line_def)

lemma parse_undecodable:
  "strip line \<noteq> [] \<Longrightarrow> loads (strip line) = Inl e \<Longrightarrow>
   parse_json_line loads now line = (Inr None, [MsgJsonParseError e (strip line)])"
  by (simp add: parse_json_line_def)

lemma parse_object:
  "strip line \<noteq> [] \<Longrightarrow> loads (strip line) = Inr (PyDict data) \<Longrightarrow>
   parse_json_line loads now line = (Inr (Some (dict_set data ''timestamp'' (PyStr now))), [])"
  by (simp add: parse_json_line_def)

lemma parse_Some_cases:
  assumes "parse_json_line loads now line = (Inr (Some d), out)"
  shows "out = [] \<and> strip line \<noteq> []
         \<and> (\<exists>data. loads (strip line) = Inr (PyDict data) \<and> d = dict_set data ''timestamp'' (PyStr now))"
  using assms
  by (auto simp: parse_json_line_def Let_def split: if_splits sum.splits pyval.splits)

lemma parse_raises_iff:
  "fst (parse_json_line loads now line) = Inl e \<longleftrightarrow>
     e = TypeError \<and> strip line \<noteq> []
     \<and> (\<exists>v. loads (strip line) = Inr v \<and> (\<forall>data. v \<noteq> PyDict data))"
  by (auto simp: parse_json_line_def Let_def split: sum.splits pyval.splits)

text \<open>
  Claim C7, as the code has it. A sample the decoder produces has the \<^verbatim>\<open>timestamp\<close> the
  local clock gave at the call, whatever \<^verbatim>\<open>timestamp\<close> field the node sent, and its other
  fields are exactly those of the decoded object.
\<close>

theorem decoded_sample_timestamp:
  assumes "parse_json_line loads now line = (Inr (Some d), out)"
  shows "map_of d ''timestamp'' = Some (PyStr now)
         \<and> (\<exists>data. loads (strip line) = Inr (PyDict data)
               \<and> (\<forall>k. k \<noteq> ''timestamp'' \<longrightarrow> map_of d k = map_of data k))"
  using parse_Some_cases[OF assms] by (auto simp: map_of_dict_set)

text \<open>
  A line whose object carries a \<^verbatim>\<open>timestamp\<close> of the node's own.
\<close>

theorem decoded_sample_timestamp_witness:
  "parse_json_line loads_examples ''2025-06-01T12:00:00'' ''{\"timestamp\": 1, \"seq\": 7}''
     = (Inr (Some [(''timestamp'', PyStr ''2025-06-01T12:00:00''), (''seq'', PyInt 7)]), [])
   \<and> map_of [(''timestamp'', PyStr ''2025-06-01T12:00:00''), (''seq'', PyInt 7)] ''timestamp''
     = Some (PyStr ''2025-06-01T12:00:00'')"
proof -
  have h: "parse_json_line loads_examples ''2025-06-01T12:00:00'' ''{\"timestamp\": 1, \"seq\": 7}''
     = (Inr (Some [(''timestamp'', PyStr ''2025-06-01T12:00:00''), (''seq'', PyInt 7)]), [])"
    by (simp add: parse_json_line_def loads_examples_def strip_def isspace_def)
  from decoded_sample_timestamp[OF h] h show ?thesis by simp
qed

text \<open>
  Claim C7 as stated fails: the line \<^verbatim>\<open>{}\<close> gives a sample that is neither an error
  sample nor a measurement sample.
\<close>

theorem sample_neither_error_nor_measurement:
  "parse_json_line loads_examples ''2025-06-01T12:00:00'' (''{}'' @ [CHR 0x0A])
     = (Inr (Some [(''timestamp'', PyStr ''2025-06-01T12:00:00'')]), [])
   \<and> \<not> is_error_sample [(''timestamp'', PyStr ''2025-06-01T12:00:00'')]
   \<and> \<not> is_measurement_sample [(''timestamp'', PyStr ''2025-06-01T12:00:00'')]"
  by (simp add: parse_json_line_def loads_examples_def strip_def isspace_def
      is_error_sample_def is_measurement_sample_def dict_has_def)

text \<open>
  Claim C5 at the line \<^verbatim>\<open>5\<close>: the text decodes to a number, the assignment of the
  timestamp raises \<^verbatim>\<open>TypeError\<close>, and the decoder does not return.
\<close>

theorem decoder_raises_on_non_object:
  "parse_json_line loads_examples ''2025-06-01T12:00:00'' (''5'' @ [CHR 0x0A]) = (Inl TypeError, [])"
  by (simp add: parse_json_line_def loads_examples_def strip_def isspace_def)

text \<open>
  Claim C4. With an empty buffer \<open>save_to_csv\<close> returns \<^verbatim>\<open>False\<close>, prints that there is
  nothing to save, and leaves the file system as it was: no directory is made and no file
  is written.
\<close>

theorem save_empty_buffer:
  assumes "data_buffer s = []"
  shows "save_to_csv S filepath s fs = (False, say [MsgNoData] s, fs)"
  using assms by (simp add: save_to_csv_def to_dataframe_def frame_empty_def)

text \<open>
  An empty buffer handed to a store that would otherwise write the file.
\<close>

theorem save_empty_buffer_witness:
  "save_to_csv example_store ''data/raw/session.csv'' fresh Map.empty
     = (False, say [MsgNoData] fresh, Map.empty)"
proof -
  have h: "data_buffer fresh = []" by (simp add: fresh_def)
  from save_empty_buffer[OF h] show ?thesis .
qed

text \<open>For comparison, the same store with one sample in the buffer: the file is written.\<close>

lemma save_one_sample_example:
  "save_to_csv example_store ''data/raw/session.csv'' (fresh\<lparr>data_buffer := [first_sample]\<rparr>)
     Map.empty
   = (True,
      say [MsgSaved ''data/raw/session.csv'' 1] (fresh\<lparr>data_buffer := [first_sample]\<rparr>),
      [''data/raw/session.csv'' \<mapsto> ''csv''])"
  by (simp add: save_to_csv_def to_dataframe_def frame_empty_def example_store_def fresh_def
      first_sample_def say_def)

section \<open>The collection loop: proofs\<close>

text \<open>What one pass through the loop body does.\<close>

lemma body_stops_on_duration:
  "duration_reached d (clock s - st) \<Longrightarrow>
   loop_body E d m st c s = Exit DurationLimit (say [MsgDurationLimit d] s)"
  by (simp add: loop_body_def)

lemma body_stops_on_samples:
  "\<not> duration_reached d (clock s - st) \<Longrightarrow> samples_reached m c \<Longrightarrow>
   loop_body E d m st c s = Exit SampleLimit (say [MsgSampleLimit m] s)"
  by (simp add: loop_body_def)

lemma body_sample:
  assumes "yields_sample E (reads s)"
    and "\<not> duration_reached d (clock s - st)" and "\<not> samples_reached m c"
  shows "\<exists>p s'. loop_body E d m st c s = Continue (Suc c) s'
           \<and> data_buffer s' = data_buffer s @ [p] \<and> reads s' = Suc (reads s)"
proof -
  from assms(1) obtain l data where l: "outcome (readline E (reads s)) = Line l"
    and ne: "strip l \<noteq> []" and ld: "json_loads E (strip l) = Inr (PyDict data)"
    by (auto simp: yields_sample_def split: read_outcome.splits sum.splits pyval.splits)
  from ne have lne: "l \<noteq> []" by (auto simp: strip_Nil)
  have "\<And>now. parse_json_line (json_loads E) now l
           = (Inr (Some (dict_set data ''timestamp'' (PyStr now))), [])"
    using ne ld by (rule parse_object)
  then show ?thesis using assms(2,3) l lne
    by (simp add: loop_body_def Let_def dict_set_nonempty say_def)
qed

lemma body_nothing:
  assumes "yields_nothing E (reads s)"
    and "\<not> duration_reached d (clock s - st)" and "\<not> samples_reached m c"
  shows "\<exists>s'. loop_body E d m st c s = Continue c s'
           \<and> data_buffer s' = data_buffer s \<and> reads s' = Suc (reads s)"
proof -
  from assms(1) obtain l where l: "outcome (readline E (reads s)) = Line l"
    and k: "strip l = [] \<or> (\<exists>e. json_loads E (strip l) = Inl e)"
    by (auto simp: yields_nothing_def split: read_outcome.splits sum.splits)
  show ?thesis
  proof (cases "strip l = []")
    case True
    then show ?thesis using assms(2,3) l
      by (simp add: loop_body_def Let_def parse_blank say_def)
  next
    case False
    with k obtain e where e: "json_loads E (strip l) = Inl e" by blast
    from False have "l \<noteq> []" by (auto simp: strip_Nil)
    moreover have "\<And>now. parse_json_line (json_loads E) now l
           = (Inr None, [MsgJsonParseError e (strip l)])"
      using False e by (rule parse_undecodable)
    ultimately show ?thesis using assms(2,3) l
      by (simp add: loop_body_def Let_def say_def)
  qed
qed


lemma body_clock:
  "loop_body E d m st c s = Exit ex s' \<Longrightarrow> ex = DurationLimit \<Longrightarrow>
     clock s' = clock s \<and> duration_reached d (clock s - st)"
  "loop_body E d m st c s = Continue c' s' \<Longrightarrow>
     \<not> duration_reached d (clock s - st) \<and> clock s' = clock s + took (readline E (reads s))"
  by (auto simp: loop_body_def Let_def say_def
      split: if_splits read_outcome.splits prod.splits sum.splits option.splits)


lemma loop_exit_step:
  "loop_body E d m st c s = Exit ex s' \<Longrightarrow> collect_loop E d m st c s = Some (ex, s')"
  by (subst collect_loop.simps) simp

lemma loop_continue_step:
  "loop_body E d m st c s = Continue c' s' \<Longrightarrow>
   collect_loop E d m st c s = collect_loop E d m st c' s'"
  by (subst collect_loop.simps) simp




text \<open>Without a limit in force, a source that never fails keeps the loop running.\<close>

lemma loop_never_ends_aux:
  assumes "collect_loop E d m st c s = Some y"
  shows "(\<forall>i. yields_sample E i \<or> yields_nothing E i) \<and> \<not> truthy_float d \<and> \<not> truthy_int m
   \<longrightarrow> False"
  using assms
proof (induct rule: collect_loop.raw_induct)
  case (1 f E d m st c s y)
  show ?case
  proof (intro impI, elim conjE)
    assume src: "\<forall>i. yields_sample E i \<or> yields_nothing E i"
      and fd: "\<not> truthy_float d" and fm: "\<not> truthy_int m"
    have nd: "\<not> duration_reached d (clock s - st)"
      using fd by (auto simp: duration_reached_def truthy_float_def split: option.splits)
    have ns: "\<not> samples_reached m c"
      using fm by (auto simp: samples_reached_def truthy_int_def split: option.splits)
    from src have "yields_sample E (reads s) \<or> yields_nothing E (reads s)" by blast
    then obtain c1 s1 where k: "loop_body E d m st c s = Continue c1 s1"
      using body_sample[OF _ nd ns, of E] body_nothing[OF _ nd ns, of E] by blast
    with 1(2) have "f E d m st c1 s1 = Some y" by simp
    moreover from 1(3) k have "collect_loop E d m st c1 s1 = Some y"
      by (simp add: loop_continue_step)
    ultimately have "(\<forall>i. yields_sample E i \<or> yields_nothing E i) \<and> \<not> truthy_float d
        \<and> \<not> truthy_int m \<longrightarrow> False" by (rule 1(1))
    with src fd fm show False by blast
  qed
qed (rule assms)

lemma loop_never_ends:
  assumes "\<forall>i. yields_sample E i \<or> yields_nothing E i"
    and "\<not> truthy_float d" and "\<not> truthy_int m"
  shows "collect_loop E d m st c s = None"
proof (cases "collect_loop E d m st c s")
  case (Some y)
  from loop_never_ends_aux[OF Some] assms show ?thesis by blast
qed simp

text \<open>From any read on, the loop comes to the next sample and buffers it.\<close>

lemma loop_to_next_sample:
  assumes src: "\<forall>i. yields_sample E i \<or> yields_nothing E i"
    and fd: "\<not> truthy_float d" and ns: "\<not> samples_reached m c"
    and j: "yields_sample E j"
  shows "reads s \<le> j \<Longrightarrow>
         \<exists>p s1. collect_loop E d m st c s = collect_loop E d m st (Suc c) s1
               \<and> data_buffer s1 = data_buffer s @ [p]"
proof (induction "j - reads s" arbitrary: s)
  case 0
  then have "reads s = j" by simp
  with j have "yields_sample E (reads s)" by simp
  moreover have "\<not> duration_reached d (clock s - st)"
    using fd by (auto simp: duration_reached_def truthy_float_def split: option.splits)
  ultimately obtain p s' where "loop_body E d m st c s = Continue (Suc c) s'"
    and "data_buffer s' = data_buffer s @ [p]"
    using body_sample[OF _ _ ns, of E s] by blast
  then show ?case using loop_continue_step by blast
next
  case (Suc k)
  have nd: "\<not> duration_reached d (clock s - st)"
    using fd by (auto simp: duration_reached_def truthy_float_def split: option.splits)
  from src have "yields_sample E (reads s) \<or> yields_nothing E (reads s)" by blast
  then show ?case
  proof
    assume "yields_sample E (reads s)"
    then obtain p s' where "loop_body E d m st c s = Continue (Suc c) s'"
      and "data_buffer s' = data_buffer s @ [p]"
      using body_sample[OF _ nd ns, of E] by blast
    then show ?thesis using loop_continue_step by blast
  next
    assume "yields_nothing E (reads s)"
    then obtain s' where b: "loop_body E d m st c s = Continue c s'"
      and db: "data_buffer s' = data_buffer s" and r: "reads s' = Suc (reads s)"
      using body_nothing[OF _ nd ns, of E] by blast
    from Suc(2) r have "k = j - reads s'" by simp
    moreover from Suc(2) r have "reads s' \<le> j" by simp
    ultimately obtain p s1 where
      "collect_loop E d m st c s' = collect_loop E d m st (Suc c) s1"
      and "data_buffer s1 = data_buffer s' @ [p]"
      using Suc(1)[of s'] by blast
    with db loop_continue_step[OF b] show ?thesis by auto
  qed
qed

text \<open>With a positive sample limit and no duration limit, the loop stops at the limit.\<close>

lemma loop_reaches_sample_limit:
  assumes src: "unbounded_source E" and fd: "\<not> truthy_float d" and N: "0 < N"
  shows "N - int c = int k \<Longrightarrow>
         \<exists>new s'. collect_loop E d (Some N) st c s = Some (SampleLimit, s')
                 \<and> data_buffer s' = data_buffer s @ new \<and> length new = k"
proof (induction k arbitrary: c s)
  case 0
  have nd: "\<not> duration_reached d (clock s - st)"
    using fd by (auto simp: duration_reached_def truthy_float_def split: option.splits)
  from 0 N have "samples_reached (Some N) c" by (simp add: samples_reached_def)
  from body_stops_on_samples[OF nd this, of E]
  have "collect_loop E d (Some N) st c s = Some (SampleLimit, say [MsgSampleLimit (Some N)] s)"
    by (rule loop_exit_step)
  then show ?case by (simp add: say_def)
next
  case (Suc k)
  then have ns: "\<not> samples_reached (Some N) c" by (simp add: samples_reached_def)
  from src have all: "\<forall>i. yields_sample E i \<or> yields_nothing E i"
    and inf: "\<forall>i. \<exists>j\<ge>i. yields_sample E j" by (auto simp: unbounded_source_def)
  from inf obtain j where j: "reads s \<le> j" "yields_sample E j" by blast
  from loop_to_next_sample[OF all fd ns j(2) j(1)] obtain p s1 where
    step: "collect_loop E d (Some N) st c s = collect_loop E d (Some N) st (Suc c) s1"
    and db: "data_buffer s1 = data_buffer s @ [p]" by blast
  from Suc(2) have "N - int (Suc c) = int k" by simp
  from Suc(1)[OF this, of s1] obtain new s' where
    "collect_loop E d (Some N) st (Suc c) s1 = Some (SampleLimit, s')"
    and "data_buffer s' = data_buffer s1 @ new" and "length new = k" by blast
  with step db show ?case by (intro exI[of _ "p # new"] exI[of _ s']) simp
qed

lemma body_exit_duration:
  assumes "loop_body E (Some D) m st c s = Exit DurationLimit s1"
  shows "clock s1 = clock s \<and> D \<le> clock s - st"
proof -
  from body_clock(1)[OF assms refl]
  have "clock s1 = clock s" and "duration_reached (Some D) (clock s - st)" by blast+
  then show ?thesis by (simp add: duration_reached_def)
qed

lemma body_continue_clock:
  assumes "loop_body E (Some D) m st c s = Continue c1 s1" and "0 < D"
  shows "clock s - st < D \<and> clock s1 = clock s + took (readline E (reads s))"
proof -
  from body_clock(2)[OF assms(1)]
  have a: "\<not> duration_reached (Some D) (clock s - st)"
    and b: "clock s1 = clock s + took (readline E (reads s))" by blast+
  from a assms(2) have "clock s - st < D" by (simp add: duration_reached_def)
  with b show ?thesis by blast
qed

lemma loop_duration_bound:
  assumes run: "collect_loop E (Some D) m st c s = Some (DurationLimit, s')"
    and D: "0 < D" and T: "\<forall>i. took (readline E i) \<le> T" and inv: "clock s - st < D + T"
  shows "D \<le> clock s' - st \<and> clock s' - st < D + T"
proof -
  define Q where "Q = (\<lambda>(E' :: env) (d :: real option) (m :: int option) (st' :: real) (c :: nat)
      (s :: state) (y :: loop_exit \<times> state).
      E' = E \<and> d = Some D \<and> st' = st \<and> clock s - st < D + T \<and> fst y = DurationLimit
        \<longrightarrow> D \<le> clock (snd y) - st \<and> clock (snd y) - st < D + T)"
  from run have "Q E (Some D) m st c s (DurationLimit, s')"
  proof (induct rule: collect_loop.raw_induct)
    case (1 f E' d m st' c s y)
    show ?case unfolding Q_def
    proof (intro impI, elim conjE)
      assume E': "E' = E" and d: "d = Some D" and st': "st' = st"
        and inv: "clock s - st < D + T" and ex: "fst y = DurationLimit"
      show "D \<le> clock (snd y) - st \<and> clock (snd y) - st < D + T"
      proof (cases "loop_body E (Some D) m st c s")
        case (Exit ex1 s1)
        with 1(2) E' d st' have y: "y = (ex1, s1)" by simp
        with ex have "ex1 = DurationLimit" by simp
        with Exit have "loop_body E (Some D) m st c s = Exit DurationLimit s1" by simp
        from body_exit_duration[OF this] have "clock s1 = clock s" "D \<le> clock s - st" by blast+
        moreover from y have "snd y = s1" by simp
        ultimately show ?thesis using inv by simp
      next
        case (Continue c1 s1)
        with 1(2) E' d st' have "f E' d m st' c1 s1 = Some y" by simp
        moreover from 1(3) E' d st' have "collect_loop E (Some D) m st c s = Some y" by simp
        then have "collect_loop E (Some D) m st c1 s1 = Some y"
          unfolding loop_continue_step[OF Continue] .
        with E' d st' have "collect_loop E' d m st' c1 s1 = Some y" by simp
        ultimately have "Q E' d m st' c1 s1 y" by (rule 1(1))
        then have ih: "clock s1 - st < D + T
            \<longrightarrow> D \<le> clock (snd y) - st \<and> clock (snd y) - st < D + T"
          using E' d st' ex by (simp add: Q_def)
        from body_continue_clock[OF Continue D] have nr: "clock s - st < D"
          and cl: "clock s1 = clock s + took (readline E (reads s))" by blast+
        from T have "took (readline E (reads s)) \<le> T" by (rule spec)
        with nr cl have "clock s1 - st < D + T" by linarith
        with ih show ?thesis by (rule mp)
      qed
    qed
  qed (rule run)
  with inv show ?thesis by (simp add: Q_def)
qed

section \<open>Whole runs of the collector\<close>

lemma announced_fields:
  "data_buffer (announced d m s) = data_buffer s"
  "clock (announced d m s) = clock s"
  "reads (announced d m s) = reads s"
  "MsgDurationLimit x \<in> set (printed (announced d m s)) \<longleftrightarrow> MsgDurationLimit x \<in> set (printed s)"
  by (auto simp: announced_def say_def Let_def)

lemma collect_data_run:
  assumes "connected s"
  shows "collect_data E d m s =
     (case collect_loop E d m (clock s) 0 (announced d m s) of
        None \<Rightarrow> None
      | Some (ex, s1) \<Rightarrow>
          (case ex of
             Raise e \<Rightarrow> Some (Inl e, s1)
           | _ \<Rightarrow>
               Some (Inr (data_buffer s1),
                     say [MsgComplete (length (data_buffer s1)) (clock s1 - clock s)]
                       (if ex = Interrupt then say [MsgStopped] s1 else s1))))"
  using assms
  by (simp add: collect_data_def announced_def Let_def say_def
      split: option.splits loop_exit.splits prod.splits)

lemma parse_out:
  "parse_json_line loads now line = (r, out) \<Longrightarrow> MsgDurationLimit x \<notin> set out"
  by (auto simp: parse_json_line_def Let_def split: if_splits sum.splits pyval.splits)

lemma body_prints_exit:
  assumes "loop_body E d m st c s = Exit ex s'" and "ex \<noteq> DurationLimit"
    and "MsgDurationLimit x \<in> set (printed s')"
  shows "MsgDurationLimit x \<in> set (printed s)"
  using assms
  by (auto simp: loop_body_def Let_def say_def dest: parse_out
      split: if_splits read_outcome.splits prod.splits sum.splits option.splits)

lemma body_prints_continue:
  assumes "loop_body E d m st c s = Continue c' s'"
    and "MsgDurationLimit x \<in> set (printed s')"
  shows "MsgDurationLimit x \<in> set (printed s)"
  using assms
  by (auto simp: loop_body_def Let_def say_def dest: parse_out
      split: if_splits read_outcome.splits prod.splits sum.splits option.splits)

lemma loop_prints:
  assumes run: "collect_loop E d m st c s = Some (ex, s')"
    and ex: "ex \<noteq> DurationLimit" and pr: "MsgDurationLimit x \<in> set (printed s')"
  shows "MsgDurationLimit x \<in> set (printed s)"
proof -
  define Q where "Q = (\<lambda>(E :: env) (d :: real option) (m :: int option) (st :: real) (c :: nat)
      (s :: state) (y :: loop_exit \<times> state).
      fst y \<noteq> DurationLimit \<and> MsgDurationLimit x \<in> set (printed (snd y))
        \<longrightarrow> MsgDurationLimit x \<in> set (printed s))"
  from run have "Q E d m st c s (ex, s')"
  proof (induct rule: collect_loop.raw_induct)
    case (1 f E d m st c s y)
    show ?case unfolding Q_def
    proof (intro impI, elim conjE)
      assume ne: "fst y \<noteq> DurationLimit" and p: "MsgDurationLimit x \<in> set (printed (snd y))"
      show "MsgDurationLimit x \<in> set (printed s)"
      proof (cases "loop_body E d m st c s")
        case (Exit ex1 s1)
        with 1(2) have y: "y = (ex1, s1)" by simp
        from body_prints_exit[OF Exit] ne p y show ?thesis by simp
      next
        case (Continue c1 s1)
        with 1(2) have "f E d m st c1 s1 = Some y" by simp
        moreover from 1(3) have "collect_loop E d m st c1 s1 = Some y"
          unfolding loop_continue_step[OF Continue] .
        ultimately have "Q E d m st c1 s1 y" by (rule 1(1))
        with ne p have "MsgDurationLimit x \<in> set (printed s1)" by (simp add: Q_def)
        with body_prints_continue[OF Continue] show ?thesis by blast
      qed
    qed
  qed (rule run)
  with ex pr show ?thesis by (simp add: Q_def)
qed


lemmas run_simps = collect_data_def example_env_def steady_source_def fresh_def
  loads_examples_def parse_json_line_def strip_def isspace_def loop_body_def say_def
  truthy_float_def truthy_int_def duration_reached_def samples_reached_def collect_loop.simps
  first_sample_def later_sample_def

lemma steady_yields: "yields_sample (example_env steady_source) i"
  by (simp add: yields_sample_def example_env_def steady_source_def loads_examples_def
      strip_def isspace_def)

lemma steady_unbounded: "unbounded_source (example_env steady_source)"
  unfolding unbounded_source_def using steady_yields by blast

text \<open>
  Claim C2, as the code has it. With a sample limit \<open>N > 0\<close>, no duration limit in force
  and an unbounded source, a collection run on an open connection returns, and the buffer
  it returns is the buffer it found followed by exactly \<open>N\<close> new samples.
\<close>

theorem sample_limit_terminates:
  assumes "unbounded_source E" and "connected s" and "0 < N" and "\<not> truthy_float duration"
  shows "\<exists>new s'. collect_data E duration (Some N) s = Some (Inr (data_buffer s @ new), s')
           \<and> data_buffer s' = data_buffer s @ new \<and> int (length new) = N"
proof -
  from assms(3) have "N - int 0 = int (nat N)" by simp
  from loop_reaches_sample_limit[OF assms(1,4,3) this,
      of "clock s" "announced duration (Some N) s"]
  obtain new s1 where
    l: "collect_loop E duration (Some N) (clock s) 0 (announced duration (Some N) s)
          = Some (SampleLimit, s1)"
    and b: "data_buffer s1 = data_buffer (announced duration (Some N) s) @ new"
    and n: "length new = nat N" by blast
  from b have b': "data_buffer s1 = data_buffer s @ new" by (simp add: announced_fields)
  have "collect_data E duration (Some N) s
      = Some (Inr (data_buffer s1),
              say [MsgComplete (length (data_buffer s1)) (clock s1 - clock s)] s1)"
    by (simp add: collect_data_run[OF assms(2)] l)
  with b' n assms(3) show ?thesis by (auto simp: say_def)
qed

text \<open>Two samples asked of the steady source.\<close>

theorem sample_limit_terminates_witness:
  "\<exists>new s'. collect_data (example_env steady_source) None (Some 2) fresh
               = Some (Inr (data_buffer fresh @ new), s')
           \<and> data_buffer s' = data_buffer fresh @ new \<and> int (length new) = 2"
proof -
  have c: "connected fresh" by (simp add: fresh_def)
  have d: "\<not> truthy_float None" by (simp add: truthy_float_def)
  have n: "(0::int) < 2" by simp
  from sample_limit_terminates[OF steady_unbounded c n d] show ?thesis .
qed

text \<open>
  Claim C2 as stated fails at \<open>N = 0\<close>: on the steady source the run with
  \<^verbatim>\<open>max_samples = 0\<close> never returns.
\<close>

theorem zero_sample_limit_runs_forever:
  "collect_data (example_env steady_source) None (Some 0) fresh = None"
proof -
  have c: "connected fresh" by (simp add: fresh_def)
  have "\<forall>i. yields_sample (example_env steady_source) i
          \<or> yields_nothing (example_env steady_source) i"
    using steady_yields by blast
  then have "collect_loop (example_env steady_source) None (Some 0) (clock fresh) 0
      (announced None (Some 0) fresh) = None"
    by (rule loop_never_ends) (simp_all add: truthy_float_def truthy_int_def)
  then show ?thesis by (simp add: collect_data_run[OF c])
qed




text \<open>
  With a positive duration limit, no sample limit in force and reads that each take at
  least \<open>\<epsilon> > 0\<close>, the loop on a source that never fails stops on the duration limit.
\<close>

lemma loop_reaches_duration_limit:
  assumes D: "0 < D" and eps: "0 < \<epsilon>" and lo: "\<forall>i. \<epsilon> \<le> took (readline E i)"
    and src: "\<forall>i. yields_sample E i \<or> yields_nothing E i" and nm: "\<not> truthy_int m"
  shows "D - (clock s - st) \<le> real k * \<epsilon> \<Longrightarrow>
         \<exists>s'. collect_loop E (Some D) m st c s = Some (DurationLimit, s')"
proof (induction k arbitrary: c s)
  case 0
  with D have "duration_reached (Some D) (clock s - st)" by (simp add: duration_reached_def)
  from body_stops_on_duration[OF this, of E m c] show ?case
    using loop_exit_step by blast
next
  case (Suc k)
  show ?case
  proof (cases "duration_reached (Some D) (clock s - st)")
    case True
    from body_stops_on_duration[OF this, of E m c] show ?thesis
      using loop_exit_step by blast
  next
    case False
    have ns: "\<not> samples_reached m c"
      using nm by (auto simp: samples_reached_def truthy_int_def split: option.splits)
    from src have "yields_sample E (reads s) \<or> yields_nothing E (reads s)" by blast
    then obtain c1 s1 where b: "loop_body E (Some D) m st c s = Continue c1 s1"
      using body_sample[OF _ False ns, of E] body_nothing[OF _ False ns, of E] by blast
    from body_clock(2)[OF b] have cl: "clock s1 = clock s + took (readline E (reads s))"
      by blast
    from lo have "\<epsilon> \<le> took (readline E (reads s))" by (rule spec)
    with cl have "clock s + \<epsilon> \<le> clock s1" by linarith
    moreover from Suc.prems have "D - (clock s - st) \<le> real k * \<epsilon> + \<epsilon>"
      by (simp add: algebra_simps)
    ultimately have "D - (clock s1 - st) \<le> real k * \<epsilon>" by linarith
    from Suc.IH[OF this] obtain s' where
      "collect_loop E (Some D) m st c1 s1 = Some (DurationLimit, s')" by blast
    with loop_continue_step[OF b] show ?thesis by simp
  qed
qed

lemma enough_passes:
  assumes "0 < (\<epsilon> :: real)"
  shows "\<exists>k. x \<le> real k * \<epsilon>"
proof -
  obtain k :: nat where "x / \<epsilon> \<le> real k" using real_arch_simple by blast
  with assms have "x \<le> real k * \<epsilon>" by (simp add: pos_divide_le_eq)
  then show ?thesis ..
qed

text \<open>
  Claim C6, as the code has it. For a duration limit \<open>D > 0\<close> the loop tests the limit
  before it reads: once the elapsed time has reached \<open>D\<close> the body stops without a read.
  So with no sample limit in force, on a source each of whose reads gives a sample or
  nothing and takes a positive time, at least \<open>\<epsilon>\<close> and at most \<open>T\<close>, a collection run on an
  open connection returns, and it has lasted at least \<open>D\<close> and less than \<open>D + T\<close>.
\<close>

theorem duration_limit_bound:
  assumes D: "0 < D" and eps: "0 < \<epsilon>"
    and T: "\<forall>i. \<epsilon> \<le> took (readline E i) \<and> took (readline E i) \<le> T"
    and src: "\<forall>i. yields_sample E i \<or> yields_nothing E i"
    and conn: "connected s" and nm: "\<not> truthy_int m"
  shows "(\<exists>buf s'. collect_data E (Some D) m s = Some (Inr buf, s')
            \<and> D \<le> clock s' - clock s \<and> clock s' - clock s < D + T)
         \<and> (\<forall>c (s1 :: state). D \<le> clock s1 - clock s \<longrightarrow>
               loop_body E (Some D) m (clock s) c s1
                 = Exit DurationLimit (say [MsgDurationLimit (Some D)] s1))"
proof -
  let ?s0 = "announced (Some D) m s"
  from T have lo: "\<forall>i. \<epsilon> \<le> took (readline E i)" and up: "\<forall>i. took (readline E i) \<le> T"
    by blast+
  from lo eps up have T0: "0 < T" by (metis less_le_trans)
  from enough_passes[OF eps] obtain k where "D - (clock ?s0 - clock s) \<le> real k * \<epsilon>" by blast
  from loop_reaches_duration_limit[OF D eps lo src nm this] obtain s1 where
    l: "collect_loop E (Some D) m (clock s) 0 ?s0 = Some (DurationLimit, s1)" by blast
  from D T0 have inv: "clock ?s0 - clock s < D + T" by (simp add: announced_fields)
  from loop_duration_bound[OF l D up inv]
  have bound: "D \<le> clock s1 - clock s \<and> clock s1 - clock s < D + T" .
  have run: "collect_data E (Some D) m s
      = Some (Inr (data_buffer s1),
              say [MsgComplete (length (data_buffer s1)) (clock s1 - clock s)] s1)"
    by (simp add: collect_data_run[OF conn] l)
  have a: "\<exists>buf s'. collect_data E (Some D) m s = Some (Inr buf, s')
            \<and> D \<le> clock s' - clock s \<and> clock s' - clock s < D + T"
    using run bound by (auto simp: say_def)
  have b: "\<forall>c (s1 :: state). D \<le> clock s1 - clock s \<longrightarrow>
      loop_body E (Some D) m (clock s) c s1 = Exit DurationLimit (say [MsgDurationLimit (Some D)] s1)"
  proof (intro allI impI)
    fix c and s1 :: state
    assume "D \<le> clock s1 - clock s"
    with D have "duration_reached (Some D) (clock s1 - clock s)"
      by (simp add: duration_reached_def)
    then show "loop_body E (Some D) m (clock s) c s1
        = Exit DurationLimit (say [MsgDurationLimit (Some D)] s1)"
      by (rule body_stops_on_duration)
  qed
  from a b show ?thesis by (rule conjI)
qed

text \<open>
  Two and a half seconds on the steady source, each read taking one second: the run
  returns after the third read, at three seconds.
\<close>

theorem duration_limit_bound_witness:
  "\<exists>buf s'. collect_data (example_env steady_source) (Some (5 / 2)) None fresh = Some (Inr buf, s')
     \<and> 5 / 2 \<le> clock s' - clock fresh \<and> clock s' - clock fresh < 5 / 2 + 1"
proof -
  have D: "(0::real) < 5 / 2" and eps: "(0::real) < 1" by simp_all
  have T: "\<forall>i. 1 \<le> took (readline (example_env steady_source) i)
      \<and> took (readline (example_env steady_source) i) \<le> 1"
    by (simp add: example_env_def steady_source_def)
  have src: "\<forall>i. yields_sample (example_env steady_source) i
      \<or> yields_nothing (example_env steady_source) i"
    using steady_yields by blast
  have conn: "connected fresh" by (simp add: fresh_def)
  have nm: "\<not> truthy_int None" by (simp add: truthy_int_def)
  from duration_limit_bound[OF D eps T src conn nm] show ?thesis by (rule conjunct1)
qed

text \<open>
  Claim C6 as stated fails outside \<open>D > 0\<close>. With \<^verbatim>\<open>duration = 0\<close> reads are started although
  the elapsed time is at least \<open>D\<close> from the beginning, and the run, ended here by the
  sample limit, lasts two seconds, which is not less than \<open>D\<close> plus the one second a read
  takes. With \<^verbatim>\<open>duration = -2\<close> the run stops at once, after no time, which is not less
  than \<open>D\<close> plus one second either.
\<close>

theorem zero_duration_limit_reads_on:
  "collect_data (example_env steady_source) (Some 0) (Some 2) fresh
     = Some (Inr [first_sample, later_sample],
             \<lparr>connected = True, data_buffer = [first_sample, later_sample],
              reads = 2, clock = 2,
              printed = [MsgStarting, MsgMaxSamples (Some 2), MsgSampleLimit (Some 2),
                         MsgComplete 2 2]\<rparr>)
   \<and> clock fresh = 0
   \<and> took (steady_source 0) = 1 \<and> took (steady_source 1) = 1
   \<and> \<not> ((2 :: real) - 0 < 0 + 1)
   \<and> collect_data (example_env steady_source) (Some (- 2)) None fresh
     = Some (Inr [],
             \<lparr>connected = True, data_buffer = [], reads = 0, clock = 0,
              printed = [MsgStarting, MsgDuration (Some (- 2)), MsgDurationLimit (Some (- 2)),
                         MsgComplete 0 0]\<rparr>)
   \<and> \<not> ((0 :: real) - 0 < - 2 + 1)"
  by (simp add: run_simps)

end
